theory Spec2Isabelle
  imports Main "HOL-Library.Word"
begin

section \<open>Schemas and struct types of \<open>lib/object-view.js\<close>\<close>

text \<open>
  An \<open>ObjectView\<close> subclass carries its layout in static members: \<open>schema\<close> (field name
  to field descriptor), \<open>fields\<close> (the names, set by \<open>initialize\<close>), \<open>objectLength\<close>
  and \<open>isInitialized\<close>. A field descriptor is the object
  \<open>{ type, size, littleEndian, length, start, ctor, stringLength }\<close>; \<open>initialize\<close>
  assigns \<open>start\<close>, \<open>length\<close>, \<open>ctor\<close>, \<open>stringLength\<close> and rewrites \<open>type\<close> in place.

  A class referenced from a field is held inside that field, so a struct type is a finite
  tree: a schema cannot refer to itself, and the state of a nested class is the state
  reached through the field that names it. A schema is the list of its entries in the
  order of \<open>Object.keys\<close>. The declared \<open>type\<close> is a string token or a class, as the
  typedef \<open>ObjectViewFieldType\<close> of the source says.

  Numbers that the code adds and multiplies while resolving (\<open>size\<close>, \<open>length\<close>,
  \<open>start\<close>, \<open>objectLength\<close>) are natural numbers or missing: \<open>None\<close> stands for
  \<open>undefined\<close> and for \<open>NaN\<close>, which is what arithmetic on \<open>undefined\<close> gives.
\<close>

datatype error = TypeError | RangeError | Unmodelled

datatype jstype = Token string | Class cls
and ctor = NoCtor | ObjectClass cls | ArrayClass cls | TypedArrayClass string "bool option"
and cls = Cls (schema: "(string \<times> field) list") (fields: "string list option")
              (objectLength: "nat option") (isInitialized: bool)
and field = Field (ftype: jstype) (fsize: "nat option") (littleEndian: "bool option")
                  (flength: "nat option") (start: "nat option") (ctor: ctor)
                  (stringLength: "nat option")

text \<open>The table \<open>fieldSizes\<close> of the source.\<close>

definition fieldSizes :: "string \<Rightarrow> nat option" where
  "fieldSizes = map_of
     [(''int8'', 1), (''uint8'', 1), (''int16'', 2), (''uint16'', 2), (''int32'', 4),
      (''uint32'', 4), (''float32'', 4), (''float64'', 8), (''bigint64'', 8),
      (''biguint64'', 8)]"

text \<open>The numeric tokens: the case labels of the first group of \<open>initialize\<close>'s switch.\<close>

definition numericTypes :: "string list" where
  "numericTypes = [''int8'', ''uint8'', ''int16'', ''uint16'', ''int32'', ''uint32'',
                   ''float32'', ''float64'', ''bigint64'', ''biguint64'']"

text \<open>\<open>if (size)\<close>: \<open>undefined\<close> and \<open>0\<close> are falsy.\<close>

fun truthy :: "nat option \<Rightarrow> bool" where
  "truthy None = False"
| "truthy (Some n) = (n \<noteq> 0)"

text \<open>Addition and multiplication of JavaScript numbers: \<open>NaN\<close> is absorbing.\<close>

fun jsadd :: "nat option \<Rightarrow> nat option \<Rightarrow> nat option" where
  "jsadd (Some a) (Some b) = Some (a + b)"
| "jsadd _ _ = None"

fun jsmul :: "nat option \<Rightarrow> nat option \<Rightarrow> nat option" where
  "jsmul (Some a) (Some b) = Some (a * b)"
| "jsmul _ _ = None"

text \<open>
  Modelled from the spec: \<open>TypedArrayViewMixin(type, littleEndian).getLength(size)\<close> and
  \<open>StringArrayView.getLength(size, length)\<close> (\<open>lib/typed-array-view.js\<close> and
  \<open>lib/string-array-view.js\<close> are not among the sources). The spec gives the length of a
  typed array field as size times element width and that of a string array field as
  size times string length.
\<close>

definition typedArrayGetLength :: "string \<Rightarrow> nat option \<Rightarrow> nat option" where
  "typedArrayGetLength t sz = jsmul sz (fieldSizes t)"

definition stringArrayGetLength :: "nat option \<Rightarrow> nat option \<Rightarrow> nat option" where
  "stringArrayGetLength sz len = jsmul sz len"

text \<open>
  \<open>ObjectView.initialize\<close> and \<open>ObjectView.getLength\<close>. Both mutate the class, so both
  return the class as they leave it, also when they throw: the second component is the
  exception, if any. \<open>init_loop\<close> is the \<open>for\<close> loop over the fields with the running
  \<open>lastOffset\<close>, \<open>init_field\<close> its body up to \<open>lastOffset += field.length\<close>. The
  assignments of each branch are applied in the order of the source, so a field whose
  branch throws keeps the assignments made before the throw (\<open>field.start\<close> always, and
  \<open>field.type\<close>, \<open>field.ctor\<close> in the class branches).

  Modelled from the spec: \<open>ArrayViewMixin(type)\<close> (\<open>lib/array-view.js\<close> is not among the
  sources) resolves the element class if it is not resolved yet and yields an array class
  over it whose \<open>getLength(size)\<close> is size times the element's \<open>objectLength\<close>.
\<close>

fun initialize :: "cls \<Rightarrow> cls \<times> error option"
and init_loop :: "nat option \<Rightarrow> (string \<times> field) list
                    \<Rightarrow> (string \<times> field) list \<times> (error + nat option)"
and init_field :: "nat option \<Rightarrow> field \<Rightarrow> field \<times> error option"
and getLength :: "cls \<Rightarrow> cls \<times> (error + nat option)"
where
  "initialize (Cls sch flds olen ini) =
     (case init_loop (Some 0) sch of
        (sch', Inl e) \<Rightarrow> (Cls sch' flds olen ini, Some e)
      | (sch', Inr lastOffset) \<Rightarrow> (Cls sch' (Some (map fst sch)) lastOffset True, None))"
| "init_loop lastOffset [] = ([], Inr lastOffset)"
| "init_loop lastOffset ((name, fld) # rest) =
     (case init_field lastOffset fld of
        (fld', Some e) \<Rightarrow> ((name, fld') # rest, Inl e)
      | (fld', None) \<Rightarrow>
          (case init_loop (jsadd lastOffset (flength fld')) rest of
             (rest', r) \<Rightarrow> ((name, fld') # rest', r)))"
| "init_field lastOffset (Field (Token t) sz le len st ct sl) =
     (if t \<in> set numericTypes then
        (if truthy sz
         then (Field (Token ''typedarray'') sz le (typedArrayGetLength t sz) lastOffset
                 (TypedArrayClass t le) sl, None)
         else (Field (Token t) sz le (fieldSizes t) lastOffset ct sl, None))
      else if t = ''string'' then
        (if truthy sz
         then (Field (Token ''stringarray'') sz le (stringArrayGetLength sz len) lastOffset
                 ct len, None)
         else (Field (Token t) sz le len lastOffset ct sl, None))
      else (Field (Token t) sz le len lastOffset ct sl, Some TypeError))"
| "init_field lastOffset (Field (Class c) sz le len st ct sl) =
     (if truthy sz then
        (case getLength c of
           (c', Inl e) \<Rightarrow> (Field (Token ''array'') sz le len lastOffset ct sl, Some e)
         | (c', Inr n) \<Rightarrow>
             (Field (Token ''array'') sz le (jsmul sz n) lastOffset (ArrayClass c') sl, None))
      else
        (case getLength c of
           (c', Inl e) \<Rightarrow>
             (Field (Token ''object'') sz le len lastOffset (ObjectClass c') sl, Some e)
         | (c', Inr n) \<Rightarrow>
             (Field (Token ''object'') sz le n lastOffset (ObjectClass c') sl, None)))"
| "getLength c =
     (if isInitialized c then (c, Inr (objectLength c))
      else (case initialize c of
              (c', Some e) \<Rightarrow> (c', Inl e)
            | (c', None) \<Rightarrow> (c', Inr (objectLength c'))))"

text \<open>The sum of a list of JavaScript numbers, from a starting value.\<close>

definition jssum :: "nat option \<Rightarrow> nat option list \<Rightarrow> nat option" where
  "jssum = foldl jsadd"

text \<open>A field as a schema declares it, before any resolution.\<close>

definition declared :: "jstype \<Rightarrow> nat option \<Rightarrow> bool option \<Rightarrow> nat option \<Rightarrow> field" where
  "declared t sz le len = Field t sz le len None NoCtor None"

text \<open>A class as it is declared: \<open>class X extends ObjectView {}; X.schema = ...\<close>.\<close>

definition declaredClass :: "(string \<times> field) list \<Rightarrow> cls" where
  "declaredClass sch = Cls sch None (Some 0) False"

text \<open>A field whose declared type is a string that no case of the switch accepts.\<close>

definition invalidType :: "field \<Rightarrow> bool" where
  "invalidType f =
     (case ftype f of Token t \<Rightarrow> t \<notin> set numericTypes \<and> t \<noteq> ''string'' | Class c \<Rightarrow> False)"

text \<open>The classes of the README's \<open>ObjectView\<close> example.\<close>

definition House :: cls where
  "House = declaredClass [(''size'', declared (Token ''uint32'') None None None)]"

definition Pet :: cls where
  "Pet = declaredClass [(''type'', declared (Token ''string'') None None (Some 10))]"

definition Person :: cls where
  "Person = declaredClass
     [(''name'', declared (Token ''string'') None None (Some 10)),
      (''scores'', declared (Token ''uint32'') (Some 10) None None),
      (''house'', declared (Class House) None None None),
      (''pets'', declared (Class Pet) (Some 3) None None)]"

text \<open>A class with a field of an unknown type after a valid one.\<close>

definition Broken :: cls where
  "Broken = declaredClass
     [(''a'', declared (Token ''uint8'') None None None),
      (''b'', declared (Token ''bogus'') None None None),
      (''c'', declared (Token ''uint16'') None None None)]"

section \<open>The platform: buffers, numbers and \<open>DataView\<close>\<close>

text \<open>
  An \<open>ArrayBuffer\<close> is its list of bytes. A view is a window on a buffer: the buffer it
  views (\<open>buf\<close>, the identity of the \<open>ArrayBuffer\<close>), \<open>byteOffset\<close> and \<open>byteLength\<close>.
  The functions below that write take the bytes of the buffer of \<open>this\<close> and return
  them updated; an exception is \<open>Inl\<close>.

  JavaScript values: a \<open>Number\<close> that is an integer is \<open>Number i\<close>; every other
  \<open>Number\<close> (a fraction, \<open>-0\<close>, an infinity, \<open>NaN\<close>) is \<open>Double w\<close>, where \<open>w\<close> is
  its IEEE 754 binary64 bit pattern. A string is the list of the bytes of its UTF-8
  encoding, an object the list of its own properties. Coercions of strings, arrays and
  objects to numbers are outside the model and end with \<open>Unmodelled\<close>.
\<close>

type_synonym byte = "8 word"
type_synonym buffer = "byte list"

datatype jsval = Undefined | Number int | Double "64 word" | BigInt int | String "byte list"
  | Array "jsval list" | Object "(string \<times> jsval) list"









text \<open>The bytes of a bit pattern, least significant first, and back.\<close>

fun nat_to_bytes :: "nat \<Rightarrow> nat \<Rightarrow> byte list" where
  "nat_to_bytes 0 n = []"
| "nat_to_bytes (Suc w) n = word_of_nat (n mod 256) # nat_to_bytes w (n div 256)"


definition order_bytes :: "bool option \<Rightarrow> byte list \<Rightarrow> byte list" where
  "order_bytes le bs = (if le = Some True then bs else rev bs)"

text \<open>Writing a run of bytes into a buffer at an index.\<close>

fun patch :: "buffer \<Rightarrow> nat \<Rightarrow> byte list \<Rightarrow> buffer" where
  "patch b at [] = b"
| "patch b at (x # xs) = patch (b[at := x]) (Suc at) xs"
















section \<open>The write path of \<open>lib/object-view.js\<close>\<close>






















section \<open>The read path of \<open>lib/object-view.js\<close>\<close>
















text \<open>The object of the README's example.\<close>

definition ascii :: "string \<Rightarrow> byte list" where
  "ascii s = map (\<lambda>ch. of_nat (of_char ch)) s"

definition zaphod :: jsval where
  "zaphod = Object
     [(''name'', String (ascii ''Zaphod'')),
      (''scores'', Array [Number 1, Number 2, Number 3]),
      (''house'', Object [(''size'', Number 1)]),
      (''pets'', Array [Object [(''type'', String (ascii ''dog''))],
                        Object [(''type'', String (ascii ''cat''))]])]"


section \<open>Resolved struct types\<close>




text \<open>
  Two states of a buffer that differ at most at the indices from \<open>lo\<close> up to \<open>hi\<close>.
\<close>

definition same_outside :: "nat \<Rightarrow> nat \<Rightarrow> buffer \<Rightarrow> buffer \<Rightarrow> bool" where
  "same_outside lo hi b b' =
     (length b' = length b \<and> (\<forall>i. i < lo \<or> hi \<le> i \<longrightarrow> b' ! i = b ! i))"

























section \<open>Schema resolution\<close>

lemma init_field_start: "init_field off f = (f', r) \<Longrightarrow> start f' = off"
  by (cases f; cases "ftype f") (auto split: if_splits prod.splits sum.splits)

lemma jssum_snoc: "jssum off (xs @ [x]) = jsadd (jssum off xs) x"
  by (simp add: jssum_def)

lemma init_loop_names: "init_loop off sch = (sch', r) \<Longrightarrow> map fst sch' = map fst sch"
proof (induction sch arbitrary: off sch' r)
  case Nil then show ?case by simp
next
  case (Cons a sch)
  obtain n f where a: "a = (n, f)" by (cases a)
  show ?case using Cons.prems Cons.IH unfolding a
    by (auto split: prod.splits option.splits)
qed

lemma init_loop_packed:
  "init_loop off sch = (sch', Inr L) \<Longrightarrow>
     L = jssum off (map (\<lambda>e. flength (snd e)) sch') \<and>
     (\<forall>i < length sch'. start (snd (sch' ! i)) =
         jssum off (map (\<lambda>e. flength (snd e)) (take i sch')))"
proof (induction sch arbitrary: off sch' L)
  case Nil then show ?case by (simp add: jssum_def)
next
  case (Cons a sch)
  obtain n f where a: "a = (n, f)" by (cases a)
  obtain f' where f': "init_field off f = (f', None)"
    using Cons.prems unfolding a by (auto split: prod.splits option.splits)
  obtain rest' where rest: "init_loop (jsadd off (flength f')) sch = (rest', Inr L)"
    and sch': "sch' = (n, f') # rest'"
    using Cons.prems f' unfolding a by (auto split: prod.splits option.splits)
  from Cons.IH[OF rest]
  have IH1: "L = jssum (jsadd off (flength f')) (map (\<lambda>e. flength (snd e)) rest')"
    and IH2: "\<And>i. i < length rest' \<Longrightarrow> start (snd (rest' ! i)) =
        jssum (jsadd off (flength f')) (map (\<lambda>e. flength (snd e)) (take i rest'))"
    by simp_all
  have st: "start f' = off" using init_field_start[OF f'] .
  show ?case
  proof (intro conjI allI impI)
    show "L = jssum off (map (\<lambda>e. flength (snd e)) sch')"
      using IH1 by (simp add: sch' jssum_def)
  next
    fix i assume "i < length sch'"
    then show "start (snd (sch' ! i)) = jssum off (map (\<lambda>e. flength (snd e)) (take i sch'))"
      using IH2 st by (cases i) (auto simp: sch' jssum_def)
  qed
qed

text \<open>The only exception resolution raises is the \<open>TypeError\<close> of the default branch.\<close>

lemma init_errors_TypeError:
  "snd (initialize c) = Some e \<longrightarrow> e = TypeError"
  "snd (init_loop off sch) = Inl e \<longrightarrow> e = TypeError"
  "snd (init_field off f) = Some e \<longrightarrow> e = TypeError"
  "snd (getLength c) = Inl e \<longrightarrow> e = TypeError"
proof (induction c and off sch and off f and c arbitrary: e and e and e and e
    rule: initialize_init_loop_init_field_getLength.induct)
  case (1 sch flds olen ini)
  then show ?case by (auto split: prod.splits sum.splits)
next
  case (2 lastOffset)
  then show ?case by simp
next
  case (3 lastOffset name fld rest)
  then show ?case by (auto split: prod.splits sum.splits option.splits)
next
  case (4 lastOffset t sz le len st ct sl)
  then show ?case by auto
next
  case (5 lastOffset c sz le len st ct sl)
  then show ?case by (auto split: prod.splits sum.splits option.splits if_splits)
next
  case (6 c)
  then show ?case by (auto split: prod.splits sum.splits option.splits if_splits)
qed

lemma init_field_invalid: "invalidType f \<Longrightarrow> snd (init_field off f) = Some TypeError"
  by (cases f; cases "ftype f") (auto simp: invalidType_def)

lemma init_loop_invalid:
  "\<exists>e \<in> set sch. invalidType (snd e) \<Longrightarrow> snd (init_loop off sch) = Inl TypeError"
proof (induction sch arbitrary: off)
  case Nil then show ?case by simp
next
  case (Cons a sch)
  obtain n f where a: "a = (n, f)" by (cases a)
  obtain f' r where fr: "init_field off f = (f', r)" by (cases "init_field off f")
  show ?case
  proof (cases r)
    case (Some e)
    then have "e = TypeError" using init_errors_TypeError(3)[of off f e] fr by simp
    then show ?thesis using fr Some by (simp add: a)
  next
    case None
    then have "\<not> invalidType f" using init_field_invalid[of f off] fr by auto
    then have "\<exists>e \<in> set sch. invalidType (snd e)" using Cons.prems by (auto simp: a)
    from Cons.IH[OF this, of "jsadd off (flength f')"] show ?thesis
      using fr None by (auto simp: a split: prod.splits)
  qed
qed

text \<open>
  Where the loop stops when it throws: the fields before the failing one are resolved
  as a loop over them alone resolves them, the failing field is what its own step left,
  and the fields after it are as they were.
\<close>

lemma init_loop_fail_shape:
  "init_loop off sch = (sch', Inl e) \<Longrightarrow>
     \<exists>pre n f post pre' f' off'. sch = pre @ (n, f) # post \<and> sch' = pre' @ (n, f') # post \<and>
        init_loop off pre = (pre', Inr off') \<and> init_field off' f = (f', Some e)"
proof (induction sch arbitrary: off sch')
  case Nil then show ?case by simp
next
  case (Cons a sch)
  obtain n f where a: "a = (n, f)" by (cases a)
  obtain f' r where fr: "init_field off f = (f', r)" by (cases "init_field off f")
  show ?case
  proof (cases r)
    case (Some e')
    then have "sch' = (n, f') # sch" "e' = e" using Cons.prems fr by (auto simp: a)
    then have "a # sch = [] @ (n, f) # sch \<and> sch' = [] @ (n, f') # sch \<and>
        init_loop off [] = ([], Inr off) \<and> init_field off f = (f', Some e)"
      using fr Some a by simp
    then show ?thesis by blast
  next
    case None
    then obtain rest' where rest: "init_loop (jsadd off (flength f')) sch = (rest', Inl e)"
      and sch': "sch' = (n, f') # rest'"
      using Cons.prems fr by (auto simp: a split: prod.splits)
    from Cons.IH[OF rest] obtain pre m g post pre' g' off' where
      h: "sch = pre @ (m, g) # post" "rest' = pre' @ (m, g') # post"
         "init_loop (jsadd off (flength f')) pre = (pre', Inr off')"
         "init_field off' g = (g', Some e)"
      by blast
    have "a # sch = ((n, f) # pre) @ (m, g) # post \<and>
        sch' = ((n, f') # pre') @ (m, g') # post \<and>
        init_loop off ((n, f) # pre) = ((n, f') # pre', Inr off') \<and>
        init_field off' g = (g', Some e)"
      using h fr None a sch' by simp
    then show ?thesis by blast
  qed
qed

text \<open>
  C2. Resolving an unresolved struct type through \<open>getLength\<close> is idempotent: a second
  \<open>getLength\<close> on the resolved class changes nothing and returns the same length. The
  resolved layout is packed in declaration order without padding: the first field starts
  at 0, each later field starts where the one before it ends, and \<open>objectLength\<close> is the
  sum of the field lengths. (Sums are JavaScript sums: a field without a length makes
  every later offset \<open>NaN\<close>.)
\<close>

theorem resolution_idempotent_and_packed:
  assumes "\<not> isInitialized c" and "getLength c = (c', Inr L)"
  shows "getLength c' = (c', Inr L) \<and> isInitialized c' \<and> objectLength c' = L \<and>
         map fst (schema c') = map fst (schema c) \<and>
         (schema c' \<noteq> [] \<longrightarrow> start (snd (schema c' ! 0)) = Some 0) \<and>
         (\<forall>i. 0 < i \<and> i < length (schema c') \<longrightarrow>
            start (snd (schema c' ! i)) =
              jsadd (start (snd (schema c' ! (i - 1)))) (flength (snd (schema c' ! (i - 1))))) \<and>
         L = jssum (Some 0) (map (\<lambda>e. flength (snd e)) (schema c'))"
proof -
  obtain sch flds olen ini where c: "c = Cls sch flds olen ini" by (cases c)
  obtain sch' where loop: "init_loop (Some 0) sch = (sch', Inr L)"
    and c': "c' = Cls sch' (Some (map fst sch)) L True"
    using assms by (auto simp: c split: prod.splits sum.splits)
  note P = init_loop_packed[OF loop]
  have names: "map fst sch' = map fst sch" using init_loop_names[OF loop] .
  have starts: "\<And>i. i < length sch' \<Longrightarrow>
      start (snd (sch' ! i)) = jssum (Some 0) (map (\<lambda>e. flength (snd e)) (take i sch'))"
    using P by blast
  have first: "sch' \<noteq> [] \<longrightarrow> start (snd (sch' ! 0)) = Some 0"
    using starts[of 0] by (auto simp: jssum_def)
  have step: "\<forall>i. 0 < i \<and> i < length sch' \<longrightarrow>
      start (snd (sch' ! i)) =
        jsadd (start (snd (sch' ! (i - 1)))) (flength (snd (sch' ! (i - 1))))"
  proof (intro allI impI)
    fix i assume i: "0 < i \<and> i < length sch'"
    then obtain j where j: "i = Suc j" by (cases i) auto
    have "take (Suc j) sch' = take j sch' @ [sch' ! j]"
      using i j by (simp add: take_Suc_conv_app_nth)
    then have "jssum (Some 0) (map (\<lambda>e. flength (snd e)) (take i sch')) =
       jsadd (jssum (Some 0) (map (\<lambda>e. flength (snd e)) (take j sch')))
         (flength (snd (sch' ! j)))"
      by (simp add: j jssum_snoc)
    then show "start (snd (sch' ! i)) =
        jsadd (start (snd (sch' ! (i - 1)))) (flength (snd (sch' ! (i - 1))))"
      using starts[of i] starts[of j] i j by simp
  qed
  show ?thesis using P first step names by (simp add: c c')
qed

lemma Person_length: "snd (getLength Person) = Inr (Some 84)"
  by code_simp

theorem resolution_idempotent_and_packed_witness:
  "\<not> isInitialized Person \<and> snd (getLength Person) = Inr (Some 84) \<and>
   getLength (fst (getLength Person)) = getLength Person"
proof -
  have n: "\<not> isInitialized Person" by (simp add: Person_def declaredClass_def)
  have g: "getLength Person = (fst (getLength Person), Inr (Some 84))"
    using Person_length by (metis prod.collapse)
  from resolution_idempotent_and_packed[OF n g]
  have "getLength (fst (getLength Person)) = (fst (getLength Person), Inr (Some 84))"
    by blast
  then have "getLength (fst (getLength Person)) = getLength Person"
    using g by presburger
  with n Person_length show ?thesis by blast
qed

lemma Broken_fails:
  "getLength Broken =
     (Cls [(''a'', Field (Token ''uint8'') None None (Some 1) (Some 0) NoCtor None),
           (''b'', Field (Token ''bogus'') None None None (Some 1) NoCtor None),
           (''c'', Field (Token ''uint16'') None None None None NoCtor None)]
          None (Some 0) False,
      Inl TypeError)"
  by code_simp

text \<open>
  C4, as stated, fails. Resolution is not all-or-nothing: \<open>initialize\<close> assigns
  \<open>field.start\<close> and \<open>field.length\<close> while it walks the schema, so when it throws at
  the field \<open>b\<close> of \<open>Broken\<close> the field \<open>a\<close> has its start and length and \<open>b\<close> its
  start.
\<close>

theorem failed_resolution_mutates_fields:
  "snd (getLength Broken) = Inl TypeError \<and>
   schema (fst (getLength Broken)) \<noteq> schema Broken \<and>
   start (snd (schema (fst (getLength Broken)) ! 0)) = Some 0 \<and>
   flength (snd (schema (fst (getLength Broken)) ! 0)) = Some 1 \<and>
   start (snd (schema (fst (getLength Broken)) ! 1)) = Some 1 \<and>
   start (snd (schema Broken ! 0)) = None \<and>
   flength (snd (schema Broken ! 0)) = None \<and>
   start (snd (schema Broken ! 1)) = None"
  unfolding Broken_fails by (simp add: Broken_def declaredClass_def declared_def)

text \<open>
  C4, amended. When resolving an unresolved struct type fails, the struct type stays
  unresolved: \<open>isInitialized\<close>, \<open>fields\<close> and \<open>objectLength\<close> are as before. Of the
  schema, the fields before the failing one are resolved, the failing field has been
  assigned its start (and what its branch assigned before the throw), and only the fields
  after it are unchanged.
\<close>

theorem failed_resolution_state:
  assumes "\<not> isInitialized c" and "getLength c = (c', Inl e)"
  shows "\<not> isInitialized c' \<and> fields c' = fields c \<and> objectLength c' = objectLength c \<and>
         (\<exists>pre n f post pre' f' off.
            schema c = pre @ (n, f) # post \<and> schema c' = pre' @ (n, f') # post \<and>
            init_loop (Some 0) pre = (pre', Inr off) \<and> init_field off f = (f', Some e) \<and>
            start f' = off)"
proof -
  obtain sch flds olen ini where c: "c = Cls sch flds olen ini" by (cases c)
  obtain sch' where loop: "init_loop (Some 0) sch = (sch', Inl e)"
    and c': "c' = Cls sch' flds olen ini"
    using assms by (auto simp: c split: prod.splits sum.splits)
  from init_loop_fail_shape[OF loop] obtain pre n f post pre' f' off where
    h: "sch = pre @ (n, f) # post" "sch' = pre' @ (n, f') # post"
       "init_loop (Some 0) pre = (pre', Inr off)" "init_field off f = (f', Some e)"
    by blast
  have "start f' = off" using init_field_start[OF h(4)] .
  then have "schema c = pre @ (n, f) # post \<and> schema c' = pre' @ (n, f') # post \<and>
            init_loop (Some 0) pre = (pre', Inr off) \<and> init_field off f = (f', Some e) \<and>
            start f' = off"
    using h by (simp add: c c')
  then have "\<exists>pre n f post pre' f' off.
            schema c = pre @ (n, f) # post \<and> schema c' = pre' @ (n, f') # post \<and>
            init_loop (Some 0) pre = (pre', Inr off) \<and> init_field off f = (f', Some e) \<and>
            start f' = off" by blast
  then show ?thesis using assms(1) by (simp add: c c')
qed

theorem failed_resolution_state_witness:
  "\<not> isInitialized Broken \<and> snd (getLength Broken) = Inl TypeError \<and>
   \<not> isInitialized (fst (getLength Broken)) \<and>
   fields (fst (getLength Broken)) = fields Broken"
proof -
  have n: "\<not> isInitialized Broken" by (simp add: Broken_def declaredClass_def)
  have r: "snd (getLength Broken) = Inl TypeError" unfolding Broken_fails by simp
  have g: "getLength Broken = (fst (getLength Broken), Inl TypeError)"
    using r by (metis prod.collapse)
  from failed_resolution_state[OF n g] n r show ?thesis by blast
qed

text \<open>
  C5. A schema with a field whose declared type is a string other than the numeric
  tokens and \<open>string\<close> cannot be resolved: \<open>getLength\<close> (and \<open>initialize\<close>) of the
  unresolved class throws the \<open>TypeError\<close> of the invalid type, at resolution, before any
  field is read or written, and the class stays unresolved.
\<close>

theorem invalid_type_fails_at_resolution:
  assumes "\<not> isInitialized c" and "(n, f) \<in> set (schema c)" and "ftype f = Token t"
    and "t \<notin> set numericTypes" and "t \<noteq> ''string''"
  shows "snd (getLength c) = Inl TypeError \<and> snd (initialize c) = Some TypeError \<and>
         \<not> isInitialized (fst (getLength c))"
proof -
  have inv: "\<exists>e \<in> set (schema c). invalidType (snd e)"
    using assms by (force simp: invalidType_def)
  obtain sch flds olen ini where c: "c = Cls sch flds olen ini" by (cases c)
  from init_loop_invalid[OF inv, of "Some 0"]
  have "snd (init_loop (Some 0) sch) = Inl TypeError"
    by (simp add: c)
  then show ?thesis using assms(1) by (auto simp: c split: prod.splits sum.splits)
qed

theorem invalid_type_fails_at_resolution_witness:
  "\<not> isInitialized Broken \<and>
   (''b'', declared (Token ''bogus'') None None None) \<in> set (schema Broken) \<and>
   ''bogus'' \<notin> set numericTypes \<and>
   snd (getLength Broken) = Inl TypeError \<and> snd (initialize Broken) = Some TypeError"
proof -
  have h: "\<not> isInitialized Broken"
    "(''b'', declared (Token ''bogus'') None None None) \<in> set (schema Broken)"
    "ftype (declared (Token ''bogus'') None None None) = Token ''bogus''"
    "''bogus'' \<notin> set numericTypes" "''bogus'' \<noteq> ''string''"
    by (simp_all add: Broken_def declaredClass_def declared_def numericTypes_def)
  from invalid_type_fails_at_resolution[OF h] h show ?thesis by blast
qed


section \<open>Frame of the write path\<close>

lemma same_outside_refl [simp]: "same_outside lo hi b b"
  by (simp add: same_outside_def)



lemma length_patch [simp]: "length (patch b at xs) = length b"
  by (induction xs arbitrary: b at) auto





lemma length_nat_to_bytes [simp]: "length (nat_to_bytes w n) = w"
  by (induction w arbitrary: n) auto

lemma length_order_bytes [simp]: "length (order_bytes le bs) = length bs"
  by (simp add: order_bytes_def)





















lemma not_numeric [simp]:
  "''string'' \<notin> set numericTypes" "''typedarray'' \<notin> set numericTypes"
  "''array'' \<notin> set numericTypes" "''stringarray'' \<notin> set numericTypes"
  "''object'' \<notin> set numericTypes"
  by (simp_all add: numericTypes_def)





section \<open>Writing objects: merge, not overwrite\<close>












section \<open>Strings\<close>






section \<open>Facts about the numeric accessors\<close>






lemma order_bytes_replicate [simp]: "order_bytes le (replicate w x) = replicate w x"
  by (simp add: order_bytes_def)






section \<open>Arrays of structs and typed arrays\<close>



























section \<open>The read path\<close>















end
